theory Spec2Isabelle
  imports Complex_Main "HOL-Library.Log_Nat"
begin

section \<open>The system time monitor of main.py\<close>

text \<open>
  The program reads the wall clock once per cycle, compares the elapsed time with the
  configured interval and writes a warning when the two differ by more than the
  threshold. Everything it does beyond arithmetic is an effect on the outside world
  (the clock, the logger, the terminal, the blocking wait), so the model takes the
  answers of the outside world as an argument and returns what the program wrote.

  Clock readings are Python floats, that is IEEE doubles. A finite double is a
  rational number and is given by its value; the arithmetic of the loop is the
  arithmetic of doubles: an integer is converted to the nearest double before it is
  subtracted, which raises \<open>OverflowError\<close> when the integer is too large, and a
  difference is rounded to the nearest double, a tie going to the even one, or to
  an infinity. Python's integers are unbounded, hence \<open>int\<close>. Argument text is a list
  of ASCII characters.
\<close>

subsection \<open>Exceptions, output and the answers of the environment\<close>

text \<open>
  The two handlers of \<open>main\<close> separate \<open>KeyboardInterrupt\<close> from the subclasses of
  \<open>Exception\<close>; the latter carry the text that \<open>str(e)\<close> gives.
\<close>

datatype exn = KeyboardInterrupt | Exception string

datatype level = INFO | WARNING | ERROR

text \<open>
  What the program writes: a record handed to the \<open>logging\<close> module (level and message;
  the logger's own time stamp prefix is left out) or a line given to \<open>print\<close>.
\<close>

datatype emitted = Log level string | Print string

text \<open>
  One record per cycle of the \<open>while True\<close> loop holds what each call to the outside
  world does in that cycle: the value \<open>time.time()\<close> returns (or the exception it
  raises), and for \<open>logging.warning\<close>, \<open>print\<close> and \<open>time.sleep\<close> the exception raised,
  if any. The reading is a finite double. The wait raises, for one, when the interval
  is beyond what \<open>time.sleep\<close> takes. An answer for a call the cycle does not make is
  not looked at. An interrupt
  that arrives between two calls meets the same handler as one raised by the next
  call, and is described as that.
\<close>

record iteration =
  clock :: "exn + rat"
  warn_log :: "exn option"
  warn_print :: "exn option"
  sleep :: "exn option"

text \<open>
  The calls before the loop: \<open>logging.FileHandler(args.log_file)\<close>, the first
  \<open>time.time()\<close>, and the start message to the logger and to the terminal.
\<close>

record startup =
  open_log :: "exn option"
  start_clock :: "exn + rat"
  start_log :: "exn option"
  start_print :: "exn option"

subsection \<open>Text: \<open>str\<close> of an integer, \<open>:.2f\<close> of a float, \<open>int\<close> of a string\<close>

definition digit_char :: "nat \<Rightarrow> char" where
  "digit_char d = ''0123456789'' ! (d mod 10)"

fun str_nat :: "nat \<Rightarrow> string" where
  "str_nat n = (if n < 10 then [digit_char n] else str_nat (n div 10) @ [digit_char (n mod 10)])"

declare str_nat.simps [simp del]

definition str_int :: "int \<Rightarrow> string" where
  "str_int n = (if n < 0 then ''-'' @ str_nat (nat (- n)) else str_nat (nat n))"

text \<open>
  Python converts a float to a fixed number of decimals by rounding its exact value to
  the nearest multiple of the last place, a tie going to the even neighbour.
\<close>

definition round_half_even :: "rat \<Rightarrow> int" where
  "round_half_even x =
     (let f = \<lfloor>x\<rfloor>; r = x - of_int f
      in if r < 1 / 2 then f
         else if 1 / 2 < r then f + 1
         else if even f then f else f + 1)"

text \<open>The format specification \<open>:.2f\<close>: sign, integer part, point, two decimals.\<close>

definition format_2f :: "rat \<Rightarrow> string" where
  "format_2f x =
     (let n = nat (round_half_even (\<bar>x\<bar> * 100))
      in (if x < 0 then ''-'' else [])
         @ str_nat (n div 100) @ ''.''
         @ [digit_char (n mod 100 div 10), digit_char (n mod 10)])"

text \<open>
  \<open>int(text)\<close> in base ten: white space around the number is dropped, one sign may
  lead, and the digits may be grouped by single underscores. \<open>None\<close> is \<open>ValueError\<close>.
  In ASCII text the white space is the space and the five characters from tab to
  carriage return.
\<close>

definition is_space :: "char \<Rightarrow> bool" where
  "is_space c = (let k = (of_char c :: nat) in (9 \<le> k \<and> k \<le> 13) \<or> k = 32)"

definition is_digit :: "char \<Rightarrow> bool" where
  "is_digit c = (let k = (of_char c :: nat) in 48 \<le> k \<and> k \<le> 57)"

definition digit_val :: "char \<Rightarrow> nat" where
  "digit_val c = of_char c - 48"

definition strip :: "string \<Rightarrow> string" where
  "strip s = rev (dropWhile is_space (rev (dropWhile is_space s)))"

text \<open>
  The digits after the sign, read left to right with the value so far; the flag says
  whether the character before was a digit, which an underscore and the end need.
\<close>

fun digits_value :: "nat \<Rightarrow> bool \<Rightarrow> string \<Rightarrow> nat option" where
  "digits_value acc after_digit [] = (if after_digit then Some acc else None)"
| "digits_value acc after_digit (c # cs) =
     (if is_digit c then digits_value (acc * 10 + digit_val c) True cs
      else if c = CHR ''_'' \<and> after_digit then digits_value acc False cs
      else None)"

definition py_int :: "string \<Rightarrow> int option" where
  "py_int s =
     (case strip s of
        [] \<Rightarrow> None
      | c # cs \<Rightarrow>
          if c = CHR ''-'' then map_option (\<lambda>n. - int n) (digits_value 0 False cs)
          else if c = CHR ''+'' then map_option int (digits_value 0 False cs)
          else map_option int (digits_value 0 False (c # cs)))"

subsection \<open>Doubles\<close>

text \<open>
  A double has 53 significant bits. For a positive rational \<open>a\<close>, \<open>binade a\<close> is the
  exponent \<open>e\<close> with \<open>2 ^ e \<le> a < 2 ^ (e + 1)\<close>, and the doubles near \<open>a\<close> are the
  multiples of \<open>quantum a\<close>, which is \<open>2 ^ (e - 52)\<close> and never less than the spacing
  \<open>2 ^ (- 1074)\<close> of the subnormal numbers.
\<close>

definition pow2 :: "int \<Rightarrow> rat" where
  "pow2 e = (if 0 \<le> e then 2 ^ nat e else 1 / 2 ^ nat (- e))"

definition binade :: "rat \<Rightarrow> int" where
  "binade a = (if 1 \<le> a then bitlen \<lfloor>a\<rfloor> - 1 else - bitlen (\<lceil>1 / a\<rceil> - 1))"

definition quantum :: "rat \<Rightarrow> rat" where
  "quantum a = pow2 (max (binade a) (- 1022) - 52)"

text \<open>Rounding to the nearest double, ties to even, before the range is looked at.\<close>

definition to_double :: "rat \<Rightarrow> rat" where
  "to_double x =
     (if x = 0 then 0
      else sgn x * of_int (round_half_even (\<bar>x\<bar> / quantum \<bar>x\<bar>)) * quantum \<bar>x\<bar>)"

text \<open>
  A float value as the loop can meet it: finite, or one of the infinities that a
  difference gives when its rounded value leaves the range of the doubles.
\<close>

datatype pyfloat = Fin rat | PosInf | NegInf

definition round_to_float :: "rat \<Rightarrow> pyfloat" where
  "round_to_float x =
     (let r = to_double x
      in if 2 ^ 1024 \<le> r then PosInf else if r \<le> - (2 ^ 1024) then NegInf else Fin r)"

text \<open>
  The conversion of an integer operand: the nearest double, or \<open>OverflowError\<close> when
  that is out of range.
\<close>

definition float_of_int :: "int \<Rightarrow> exn + rat" where
  "float_of_int i =
     (let r = to_double (of_int i)
      in if 2 ^ 1024 \<le> \<bar>r\<bar> then Inl (Exception ''int too large to convert to float'')
         else Inr r)"

text \<open>\<open>x - y\<close> for a float \<open>x\<close> and a finite double \<open>y\<close>; \<open>abs\<close>; and \<open>x > t\<close> for an
  integer \<open>t\<close>, which Python compares by value, without converting \<open>t\<close>.\<close>

definition float_sub :: "pyfloat \<Rightarrow> rat \<Rightarrow> pyfloat" where
  "float_sub x y =
     (case x of Fin a \<Rightarrow> round_to_float (a - y) | PosInf \<Rightarrow> PosInf | NegInf \<Rightarrow> NegInf)"

definition float_abs :: "pyfloat \<Rightarrow> pyfloat" where
  "float_abs x = (case x of Fin a \<Rightarrow> Fin \<bar>a\<bar> | PosInf \<Rightarrow> PosInf | NegInf \<Rightarrow> PosInf)"

definition float_gt_int :: "pyfloat \<Rightarrow> int \<Rightarrow> bool" where
  "float_gt_int x t = (case x of Fin a \<Rightarrow> of_int t < a | PosInf \<Rightarrow> True | NegInf \<Rightarrow> False)"

definition format_float_2f :: "pyfloat \<Rightarrow> string" where
  "format_float_2f x =
     (case x of Fin a \<Rightarrow> format_2f a | PosInf \<Rightarrow> ''inf'' | NegInf \<Rightarrow> ''-inf'')"

subsection \<open>\<open>check_positive_int\<close>\<close>

text \<open>
  The helper takes an integer or a string. \<open>Inl\<close> carries the message of the
  \<open>ArgumentTypeError\<close> it raises, which quotes \<open>str(value)\<close>.
\<close>

datatype pyvalue = IntV int | StrV string

definition py_str :: "pyvalue \<Rightarrow> string" where
  "py_str v = (case v of IntV n \<Rightarrow> str_int n | StrV s \<Rightarrow> s)"

definition int_of_value :: "pyvalue \<Rightarrow> int option" where
  "int_of_value v = (case v of IntV n \<Rightarrow> Some n | StrV s \<Rightarrow> py_int s)"

definition invalid_msg :: "pyvalue \<Rightarrow> string" where
  "invalid_msg v = ''Invalid positive int value: '' @ [CHR 0x27] @ py_str v @ [CHR 0x27]"

definition check_positive_int :: "pyvalue \<Rightarrow> string + int" where
  "check_positive_int v =
     (case int_of_value v of
        None \<Rightarrow> Inl (invalid_msg v)
      | Some ivalue \<Rightarrow> if ivalue \<le> 0 then Inl (invalid_msg v) else Inr ivalue)"

subsection \<open>\<open>setup_argparse\<close> and \<open>parse_args\<close>\<close>

text \<open>
  The command line as the parser sees it: for each of the three options the text given
  for it, or nothing. A default is taken as it is; a given text goes through the
  option's \<open>type\<close>, which is \<open>int\<close> for the interval and the threshold. When
  \<open>int\<close> raises \<open>ValueError\<close> the parser reports the argument on the error stream and
  leaves the process with status 2, which is \<open>Inl 2\<close> here.
\<close>

record cmdline =
  interval_arg :: "string option"
  threshold_arg :: "string option"
  log_file_arg :: "string option"

record namespace =
  ns_interval :: int
  ns_threshold :: int
  ns_log_file :: string

definition int_option :: "int \<Rightarrow> string option \<Rightarrow> int + int" where
  "int_option dflt a =
     (case a of
        None \<Rightarrow> Inr dflt
      | Some s \<Rightarrow> (case py_int s of None \<Rightarrow> Inl 2 | Some n \<Rightarrow> Inr n))"

definition parse_args :: "cmdline \<Rightarrow> int + namespace" where
  "parse_args c =
     (case int_option 1 (interval_arg c) of
        Inl code \<Rightarrow> Inl code
      | Inr i \<Rightarrow>
          (case int_option 5 (threshold_arg c) of
             Inl code \<Rightarrow> Inl code
           | Inr t \<Rightarrow>
               Inr \<lparr>ns_interval = i, ns_threshold = t,
                    ns_log_file = (case log_file_arg c of
                                     None \<Rightarrow> ''system_time_monitor.log''
                                   | Some f \<Rightarrow> f)\<rparr>))"

subsection \<open>The loop of \<open>main\<close>\<close>

text \<open>
  What the loop reads and writes: the three values of \<open>args\<close> and the local
  \<open>last_time\<close>. The other two locals, \<open>current_time\<close> and \<open>time_difference\<close>, are
  written in every cycle before they are read.
\<close>

record state =
  interval :: int
  threshold :: int
  log_file :: string
  last_time :: rat

definition alert_msg :: "pyfloat \<Rightarrow> int \<Rightarrow> string" where
  "alert_msg time_difference i =
     ''Significant system time change detected: '' @ format_float_2f time_difference
       @ '' seconds since last check (expected ~'' @ str_int i @ ''s)''"

text \<open>
  The two statements under the \<open>if\<close>: the warning to the logger, then the line to the
  terminal. The second is not reached when the first raises.
\<close>

definition emit_alert :: "state \<Rightarrow> pyfloat \<Rightarrow> iteration \<Rightarrow> emitted list \<times> exn option" where
  "emit_alert s time_difference it =
     (let msg = alert_msg time_difference (interval s)
      in case warn_log it of
           Some e \<Rightarrow> ([], Some e)
         | None \<Rightarrow>
             (case warn_print it of
                Some e \<Rightarrow> ([Log WARNING msg], Some e)
              | None \<Rightarrow> ([Log WARNING msg, Print (''Warning: '' @ msg)], None)))"

text \<open>
  The test \<open>abs(time_difference - args.interval) > args.threshold\<close>: the interval is
  converted to a double, which may raise; the difference is rounded; the threshold is
  compared as the integer it is.
\<close>

definition deviation_exceeds :: "pyfloat \<Rightarrow> int \<Rightarrow> int \<Rightarrow> exn + bool" where
  "deviation_exceeds time_difference i t =
     (case float_of_int i of
        Inl e \<Rightarrow> Inl e
      | Inr fi \<Rightarrow> Inr (float_gt_int (float_abs (float_sub time_difference fi)) t))"

text \<open>
  One pass through the body of \<open>while True\<close>. The result is what was written, the
  state when the pass ended, and the exception that ended it, if one was raised.
\<close>

definition body :: "state \<Rightarrow> iteration \<Rightarrow> emitted list \<times> state \<times> exn option" where
  "body s it =
     (case clock it of
        Inl e \<Rightarrow> ([], s, Some e)
      | Inr current_time \<Rightarrow>
          (let time_difference = float_sub (Fin current_time) (last_time s)
           in case deviation_exceeds time_difference (interval s) (threshold s) of
                Inl e \<Rightarrow> ([], s, Some e)
              | Inr exceeds \<Rightarrow>
                  (case (if exceeds then emit_alert s time_difference it else ([], None)) of
                     (outs, Some e) \<Rightarrow> (outs, s, Some e)
                   | (outs, None) \<Rightarrow> (outs, s\<lparr>last_time := current_time\<rparr>, sleep it))))"

text \<open>
  The loop has no exit of its own. It runs over the cycles the environment describes
  and stops at the first exception; when the description ends first, the result has no
  exception and the state is the one the next cycle would start from.
\<close>

fun loop :: "state \<Rightarrow> iteration list \<Rightarrow> emitted list \<times> state \<times> exn option" where
  "loop s [] = ([], s, None)"
| "loop s (it # its) =
     (case body s it of
        (outs, s', Some e) \<Rightarrow> (outs, s', Some e)
      | (outs, s', None) \<Rightarrow>
          (case loop s' its of (outs', s'', r) \<Rightarrow> (outs @ outs', s'', r)))"

subsection \<open>\<open>main\<close>\<close>

text \<open>
  How a run ends: the parser left the process with a status, \<open>main\<close> returned a status
  (which the last line of the script hands to \<open>exit\<close>), an exception left \<open>main\<close>, or
  the loop is still running in the given state when the description of the
  environment ends.
\<close>

datatype outcome = SysExit int | Return int | Uncaught exn | Running state

text \<open>The statements of the \<open>try\<close> block: first reading, start messages, loop.\<close>

definition try_block ::
  "namespace \<Rightarrow> startup \<Rightarrow> iteration list \<Rightarrow> emitted list \<times> (exn + state)" where
  "try_block args st its =
     (case start_clock st of
        Inl e \<Rightarrow> ([], Inl e)
      | Inr t0 \<Rightarrow>
          (case start_log st of
             Some e \<Rightarrow> ([], Inl e)
           | None \<Rightarrow>
               (case start_print st of
                  Some e \<Rightarrow> ([Log INFO ''System time monitor started.''], Inl e)
                | None \<Rightarrow>
                    (case loop \<lparr>interval = ns_interval args, threshold = ns_threshold args,
                                log_file = ns_log_file args, last_time = t0\<rparr> its of
                       (outs, s, r) \<Rightarrow>
                         ([Log INFO ''System time monitor started.'',
                           Print (''System time monitor started.  Logging to '' @ ns_log_file args)]
                          @ outs,
                          case r of Some e \<Rightarrow> Inl e | None \<Rightarrow> Inr s)))))"

text \<open>
  The two \<open>except\<close> clauses, with the status \<open>main\<close> returns after each. The two
  calls inside a clause, like the two that report a rejected number, are taken to
  succeed.
\<close>

definition handlers :: "exn \<Rightarrow> emitted list \<times> outcome" where
  "handlers e =
     (case e of
        KeyboardInterrupt \<Rightarrow>
          ([Log INFO ''System time monitor stopped by user.'',
            Print ''System time monitor stopped.''], Return 0)
      | Exception m \<Rightarrow>
          ([Log ERROR (''An unexpected error occurred: '' @ m),
            Print (''Error: '' @ m)], Return 1))"

text \<open>
  The validation of the two numbers, in the order of the source: the first
  \<open>ArgumentTypeError\<close> is reported and \<open>main\<close> returns 1.
\<close>

definition validate :: "namespace \<Rightarrow> string + namespace" where
  "validate args =
     (case check_positive_int (IntV (ns_interval args)) of
        Inl m \<Rightarrow> Inl m
      | Inr i \<Rightarrow>
          (case check_positive_int (IntV (ns_threshold args)) of
             Inl m \<Rightarrow> Inl m
           | Inr t \<Rightarrow> Inr (args\<lparr>ns_interval := i, ns_threshold := t\<rparr>)))"

definition main :: "cmdline \<Rightarrow> startup \<Rightarrow> iteration list \<Rightarrow> emitted list \<times> outcome" where
  "main c st its =
     (case parse_args c of
        Inl code \<Rightarrow> ([], SysExit code)
      | Inr parsed \<Rightarrow>
          (case validate parsed of
             Inl m \<Rightarrow> ([Log ERROR (''Error: '' @ m), Print (''Error: '' @ m)], Return 1)
           | Inr args \<Rightarrow>
               (case open_log st of
                  Some e \<Rightarrow> ([], Uncaught e)
                | None \<Rightarrow>
                    (case try_block args st its of
                       (outs, Inl e) \<Rightarrow>
                         (case handlers e of (outs', res) \<Rightarrow> (outs @ outs', res))
                     | (outs, Inr s) \<Rightarrow> (outs, Running s)))))"

text \<open>
  The lines under \<open>if __name__ == "__main__"\<close>: a notice when the effective user is
  root, then \<open>exit(main())\<close>, so that a status \<open>main\<close> returns is the status of the
  process.
\<close>

definition script ::
  "bool \<Rightarrow> cmdline \<Rightarrow> startup \<Rightarrow> iteration list \<Rightarrow> emitted list \<times> outcome" where
  "script is_root c st its =
     (case main c st its of
        (outs, res) \<Rightarrow>
          ((if is_root
            then [Print ''Warning: Running as root.  Consider running as a non-privileged user for security reasons.'',
                  Log WARNING ''Running as root. Consider running as a non-privileged user for security reasons.'']
            else []) @ outs,
           res))"

subsection \<open>Environments used in the statements\<close>

text \<open>A cycle in which the clock reads \<open>t\<close> and no call raises.\<close>

definition quiet :: "rat \<Rightarrow> iteration" where
  "quiet t = \<lparr>clock = Inr t, warn_log = None, warn_print = None, sleep = None\<rparr>"

text \<open>A start in which the log file opens, the clock reads \<open>t\<close> and no call raises.\<close>

definition quiet_start :: "rat \<Rightarrow> startup" where
  "quiet_start t = \<lparr>open_log = None, start_clock = Inr t, start_log = None, start_print = None\<rparr>"

text \<open>
  A run without clock disturbance, seen from the reading the loop holds: in every cycle
  that the loop reaches, the elapsed time the cycle measures is finite and differs from
  the interval by at most the threshold. A cycle is reached when no call before it has
  raised.
\<close>

fun steady :: "int \<Rightarrow> int \<Rightarrow> rat \<Rightarrow> iteration list \<Rightarrow> bool" where
  "steady i t prev [] = True"
| "steady i t prev (it # its) =
     (case clock it of
        Inl e \<Rightarrow> True
      | Inr current_time \<Rightarrow>
          (case float_sub (Fin current_time) prev of
             Fin delta \<Rightarrow>
               \<bar>delta - of_int i\<bar> \<le> of_int t
               \<and> (case sleep it of Some e \<Rightarrow> True | None \<Rightarrow> steady i t current_time its)
           | PosInf \<Rightarrow> False
           | NegInf \<Rightarrow> False))"


text \<open>The state a pass or a run of the loop ends in.\<close>

definition final_state :: "emitted list \<times> state \<times> exn option \<Rightarrow> state" where
  "final_state r = fst (snd r)"

section \<open>Properties\<close>

subsection \<open>Rounding to a double\<close>

lemma pow2_pos: "0 < pow2 e"
  by (simp add: pow2_def)

lemma binade_le: "0 < a \<Longrightarrow> pow2 (binade a) \<le> a"
proof (cases "1 \<le> a")
  case True
  then have pos: "0 < \<lfloor>a\<rfloor>" by simp
  from bitlen_bounds [OF pos] have "2 ^ nat (bitlen \<lfloor>a\<rfloor> - 1) \<le> \<lfloor>a\<rfloor>" by simp
  then have "(of_int (2 ^ nat (bitlen \<lfloor>a\<rfloor> - 1)) :: rat) \<le> of_int \<lfloor>a\<rfloor>"
    by (simp only: of_int_le_iff)
  also have "\<dots> \<le> a" by simp
  finally have le: "(2::rat) ^ nat (bitlen \<lfloor>a\<rfloor> - 1) \<le> a" by simp
  from pos have "1 \<le> bitlen \<lfloor>a\<rfloor>"
    using bitlen_eq_zero_iff [of "\<lfloor>a\<rfloor>"] bitlen_nonneg [of "\<lfloor>a\<rfloor>"] by linarith
  with True le show ?thesis by (simp add: binade_def pow2_def)
next
  case False
  assume a: "0 < a"
  let ?n = "\<lceil>1 / a\<rceil> - 1"
  from False a have "1 < 1 / a" by simp
  then have "1 < \<lceil>1 / a\<rceil>" by linarith
  then have pos: "0 < ?n" by simp
  from bitlen_bounds [OF pos] have "?n < 2 ^ nat (bitlen ?n)" by simp
  then have "\<lceil>1 / a\<rceil> \<le> 2 ^ nat (bitlen ?n)" by linarith
  then have c: "(of_int \<lceil>1 / a\<rceil> :: rat) \<le> of_int (2 ^ nat (bitlen ?n))"
    by (simp only: of_int_le_iff)
  have "1 / a \<le> of_int \<lceil>1 / a\<rceil>" by (rule le_of_int_ceiling)
  also note c
  also have "(of_int (2 ^ nat (bitlen ?n)) :: rat) = 2 ^ nat (bitlen ?n)" by simp
  finally have "1 / a \<le> 2 ^ nat (bitlen ?n)" .
  with a have "1 / 2 ^ nat (bitlen ?n) \<le> a"
    by (simp add: field_simps)
  moreover from pos have "1 \<le> bitlen ?n"
    using bitlen_eq_zero_iff [of ?n] bitlen_nonneg [of ?n] by linarith
  ultimately show ?thesis using False by (simp add: binade_def pow2_def)
qed

lemma quantum_divides:
  assumes "0 < a" and "a \<le> of_int t" and "t \<le> 2 ^ 53"
  shows "\<exists>m. of_int t = of_int m * quantum a"
proof -
  let ?e = "max (binade a) (- 1022)"
  show ?thesis
  proof (cases "?e \<le> 52")
    case True
    let ?k = "nat (52 - ?e)"
    have "quantum a = 1 / 2 ^ ?k"
    proof (cases "?e = 52")
      case True
      then show ?thesis by (simp add: quantum_def pow2_def)
    next
      case False
      with \<open>?e \<le> 52\<close> have "?e - 52 < 0" by simp
      then show ?thesis by (simp add: quantum_def pow2_def)
    qed
    then have "of_int t = of_int (t * 2 ^ ?k) * quantum a" by simp
    then show ?thesis ..
  next
    case False
    then have e: "53 \<le> binade a" by simp
    then have "pow2 (binade a) = 2 ^ nat (binade a)" by (simp add: pow2_def)
    with binade_le [OF assms(1)] have "(2::rat) ^ nat (binade a) \<le> a" by simp
    also note assms(2)
    also from assms(3) have "(of_int t :: rat) \<le> of_int (2 ^ 53)" by (simp only: of_int_le_iff)
    also have "(of_int (2 ^ 53) :: rat) = 2 ^ 53" by simp
    finally have "(2::rat) ^ nat (binade a) \<le> 2 ^ 53" .
    from power_le_imp_le_exp [OF _ this] have "nat (binade a) \<le> 53" by simp
    with e have b: "binade a = 53" by simp
    with binade_le [OF assms(1)] have "2 ^ 53 \<le> a" by (simp add: pow2_def)
    also note assms(2)
    finally have "(of_int (2 ^ 53) :: rat) \<le> of_int t" by simp
    then have "2 ^ 53 \<le> t" by (simp only: of_int_le_iff)
    with assms(3) have t: "t = 2 ^ 53" by simp
    from b have "quantum a = 2" by (simp add: quantum_def pow2_def)
    with t have "of_int t = of_int (2 ^ 52) * quantum a" by simp
    then show ?thesis ..
  qed
qed

lemma round_half_even_of_int: "round_half_even (of_int m) = m"
  by (simp add: round_half_even_def)

lemma round_half_even_le: "x \<le> of_int m \<Longrightarrow> round_half_even x \<le> m"
proof -
  assume le: "x \<le> of_int m"
  show ?thesis
  proof (cases "x = of_int m")
    case True
    then show ?thesis by (simp add: round_half_even_of_int)
  next
    case False
    with le have "x < of_int m" by simp
    then have "\<lfloor>x\<rfloor> < m" by (simp add: floor_less_iff)
    then show ?thesis by (simp add: round_half_even_def Let_def)
  qed
qed

lemma round_half_even_nonneg: "0 \<le> x \<Longrightarrow> 0 \<le> round_half_even x"
  by (simp add: round_half_even_def Let_def)

lemma quantum_pos: "0 < quantum a"
  by (simp add: quantum_def pow2_pos)

lemma to_double_minus: "to_double (- x) = - to_double x"
  by (simp add: to_double_def)

lemma to_double_bound:
  assumes "\<bar>x\<bar> \<le> of_int t" and "t \<le> 2 ^ 53"
  shows "\<bar>to_double x\<bar> \<le> of_int t"
proof (cases "x = 0")
  case True
  with assms show ?thesis by (simp add: to_double_def)
next
  case False
  let ?a = "\<bar>x\<bar>"
  let ?q = "quantum ?a"
  let ?n = "round_half_even (?a / ?q)"
  from False have pos: "0 < ?a" by simp
  from quantum_divides [OF pos assms] obtain m where m: "of_int t = of_int m * ?q" ..
  have q: "0 < ?q" by (rule quantum_pos)
  from assms(1) m q have "?a / ?q \<le> of_int m" by (simp add: field_simps)
  then have "?n \<le> m" by (rule round_half_even_le)
  then have "(of_int ?n :: rat) \<le> of_int m" by (simp only: of_int_le_iff)
  with q have "of_int ?n * ?q \<le> of_int m * ?q" by (simp add: mult_right_mono)
  moreover from pos q have "0 \<le> ?n" by (intro round_half_even_nonneg) simp
  moreover have "\<bar>to_double x\<bar> = \<bar>of_int ?n * ?q\<bar>"
    using False by (simp add: to_double_def abs_mult)
  ultimately show ?thesis using q m by (simp add: abs_mult)
qed

lemma to_double_of_int:
  assumes "\<bar>n\<bar> \<le> 2 ^ 53"
  shows "to_double (of_int n) = of_int n"
proof (cases "n = 0")
  case True
  then show ?thesis by (simp add: to_double_def)
next
  case False
  let ?a = "\<bar>of_int n :: rat\<bar>"
  let ?q = "quantum ?a"
  from False have pos: "0 < ?a" by simp
  have "?a \<le> of_int \<bar>n\<bar>" by simp
  from quantum_divides [OF pos this assms] obtain m where m: "of_int \<bar>n\<bar> = of_int m * ?q" ..
  have q: "0 < ?q" by (rule quantum_pos)
  from m q have "?a / ?q = of_int m" by (simp add: field_simps)
  then have "round_half_even (?a / ?q) = m" by (simp add: round_half_even_of_int)
  with False m have "to_double (of_int n) = sgn (of_int n) * of_int \<bar>n\<bar>"
    by (simp add: to_double_def)
  then show ?thesis by (simp add: sgn_if)
qed

lemma two_53_less_1024: "(2::rat) ^ 53 < 2 ^ 1024"
  by (rule power_strict_increasing) simp_all

lemma round_to_float_small:
  assumes "\<bar>x\<bar> \<le> of_int t" and "t \<le> 2 ^ 53"
  shows "round_to_float x = Fin (to_double x)"
proof -
  have "\<bar>to_double x\<bar> \<le> of_int t" using assms by (rule to_double_bound)
  also from assms(2) have "(of_int t :: rat) \<le> of_int (2 ^ 53)" by (simp only: of_int_le_iff)
  also have "(of_int (2 ^ 53) :: rat) = 2 ^ 53" by simp
  also note two_53_less_1024
  finally have "\<bar>to_double x\<bar> < 2 ^ 1024" .
  then have "\<not> 2 ^ 1024 \<le> to_double x" and "\<not> to_double x \<le> - (2 ^ 1024)"
    by linarith+
  then show ?thesis by (simp add: round_to_float_def Let_def)
qed

lemma float_of_int_small:
  assumes "\<bar>n\<bar> \<le> 2 ^ 53"
  shows "float_of_int n = Inr (of_int n)"
proof -
  have "(of_int \<bar>n\<bar> :: rat) \<le> of_int (2 ^ 53)" using assms by (simp only: of_int_le_iff)
  also have "(of_int (2 ^ 53) :: rat) = 2 ^ 53" by simp
  also note two_53_less_1024
  finally have "\<not> 2 ^ 1024 \<le> \<bar>of_int n :: rat\<bar>" by simp
  with to_double_of_int [OF assms] show ?thesis
    by (simp add: float_of_int_def Let_def)
qed

lemma round_to_float_of_int:
  assumes "\<bar>n\<bar> \<le> 2 ^ 53"
  shows "round_to_float (of_int n) = Fin (of_int n)"
proof -
  have "\<bar>of_int n :: rat\<bar> \<le> of_int \<bar>n\<bar>" by simp
  from round_to_float_small [OF this assms] to_double_of_int [OF assms]
  show ?thesis by simp
qed

lemma round_to_float_numeral:
  "numeral k \<le> (2 ^ 53 :: int) \<Longrightarrow> round_to_float (numeral k) = Fin (numeral k)"
  "numeral k \<le> (2 ^ 53 :: int) \<Longrightarrow> round_to_float (- numeral k) = Fin (- numeral k)"
  "round_to_float 0 = Fin 0"
  "round_to_float 1 = Fin 1"
  using round_to_float_of_int [of "numeral k"] round_to_float_of_int [of "- numeral k"]
    round_to_float_of_int [of 0] round_to_float_of_int [of 1]
  by simp_all

lemma float_of_int_numeral:
  "numeral k \<le> (2 ^ 53 :: int) \<Longrightarrow> float_of_int (numeral k) = Inr (numeral k)"
  "float_of_int 1 = Inr 1"
  using float_of_int_small [of "numeral k"] float_of_int_small [of 1]
  by simp_all

text \<open>
  The test of the loop when the interval and the threshold are at most \<open>2 ^ 53\<close>: the
  interval is converted without change, and the test compares the rounded difference.
\<close>

lemma deviation_exceeds_computed:
  assumes "\<bar>i\<bar> \<le> 2 ^ 53" and "t \<le> 2 ^ 53"
  shows "deviation_exceeds (Fin d) i t = Inr (of_int t < \<bar>to_double (d - of_int i)\<bar>)"
proof -
  let ?r = "to_double (d - of_int i)"
  from assms(2) have "(of_int t :: rat) \<le> of_int (2 ^ 53)" by (simp only: of_int_le_iff)
  also have "(of_int (2 ^ 53) :: rat) = 2 ^ 53" by simp
  also note two_53_less_1024
  finally have t: "(of_int t :: rat) < 2 ^ 1024" .
  have "float_gt_int (float_abs (round_to_float (d - of_int i))) t = (of_int t < \<bar>?r\<bar>)"
  proof (cases "2 ^ 1024 \<le> ?r")
    case True
    with t show ?thesis
      by (simp add: round_to_float_def float_abs_def float_gt_int_def Let_def)
  next
    case False
    show ?thesis
    proof (cases "?r \<le> - (2 ^ 1024)")
      case True
      with t \<open>\<not> 2 ^ 1024 \<le> ?r\<close> show ?thesis
        by (simp add: round_to_float_def float_abs_def float_gt_int_def Let_def)
    next
      case False
      with \<open>\<not> 2 ^ 1024 \<le> ?r\<close> show ?thesis
        by (simp add: round_to_float_def float_abs_def float_gt_int_def Let_def)
    qed
  qed
  with float_of_int_small [OF assms(1)] show ?thesis
    by (simp add: deviation_exceeds_def float_sub_def)
qed

lemma deviation_exceeds_within:
  assumes "\<bar>i\<bar> \<le> 2 ^ 53" and "t \<le> 2 ^ 53" and "\<bar>d - of_int i\<bar> \<le> of_int t"
  shows "deviation_exceeds (Fin d) i t = Inr False"
  using deviation_exceeds_computed [OF assms(1,2)] to_double_bound [OF assms(3,2)]
  by simp

lemma to_double_numeral:
  "numeral k \<le> (2 ^ 53 :: int) \<Longrightarrow> to_double (numeral k) = numeral k"
  using to_double_of_int [of "numeral k"] by simp

text \<open>What unfolds a cycle whose readings and numbers are small integers.\<close>

lemmas cycle_eval =
  body_def quiet_def Let_def float_sub_def deviation_exceeds_def float_abs_def
  float_gt_int_def round_to_float_numeral float_of_int_numeral

subsection \<open>Auxiliary facts\<close>

lemma validate_positive:
  "0 < ns_interval a \<Longrightarrow> 0 < ns_threshold a \<Longrightarrow> validate a = Inr a"
  by (simp add: validate_def check_positive_int_def int_of_value_def)

lemma validate_interval_rejected:
  "ns_interval a \<le> 0 \<Longrightarrow> validate a = Inl (invalid_msg (IntV (ns_interval a)))"
  by (simp add: validate_def check_positive_int_def int_of_value_def)

lemma validate_threshold_rejected:
  "0 < ns_interval a \<Longrightarrow> ns_threshold a \<le> 0 \<Longrightarrow>
     validate a = Inl (invalid_msg (IntV (ns_threshold a)))"
  by (simp add: validate_def check_positive_int_def int_of_value_def)

lemma loop_raised_append:
  "loop s its = (outs, s', Some e) \<Longrightarrow> loop s (its @ rest) = (outs, s', Some e)"
  by (induction its arbitrary: s outs) (auto split: prod.splits option.splits)

lemma body_frame: "body s it = (outs, s', r) \<Longrightarrow> s' = s\<lparr>last_time := last_time s'\<rparr>"
  by (auto simp: body_def Let_def split: sum.splits prod.splits option.splits if_splits)

lemma loop_frame: "loop s its = (outs, s', r) \<Longrightarrow> s' = s\<lparr>last_time := last_time s'\<rparr>"
proof (induction its arbitrary: s outs s' r)
  case Nil
  then show ?case by simp
next
  case (Cons it its)
  obtain o1 s1 r1 where b: "body s it = (o1, s1, r1)"
    by (cases "body s it") auto
  show ?case
  proof (cases r1)
    case None
    obtain o2 s2 r2 where l: "loop s1 its = (o2, s2, r2)"
      by (cases "loop s1 its") auto
    from Cons.prems b None l have "s' = s2" by simp
    moreover from Cons.IH [OF l] have "s2 = s1\<lparr>last_time := last_time s2\<rparr>" .
    moreover from body_frame [OF b] have "s1 = s\<lparr>last_time := last_time s1\<rparr>" .
    ultimately show ?thesis
      by (metis state.update_convs(4) state.surjective)
  next
    case (Some e)
    with Cons.prems b have "s' = s1" by simp
    with body_frame [OF b] show ?thesis by simp
  qed
qed

lemma format_2f_ten: "format_2f 10 = ''10.00''"
  by code_simp

lemma str_int_one: "str_int 1 = ''1''"
  by code_simp

lemma str_int_seven: "str_int 7 = ''7''"
  by code_simp

lemma format_2f_zero: "format_2f 0 = ''0.00''"
  by code_simp

lemma body_completed:
  "body s it = (outs, s', None) \<Longrightarrow>
     \<exists>ct. clock it = Inr ct \<and> s' = s\<lparr>last_time := ct\<rparr> \<and> sleep it = None"
  by (auto simp: body_def Let_def split: sum.splits prod.splits option.splits if_splits)

lemma loop_completed_last_time:
  "loop s its = (outs, s', None) \<Longrightarrow> its \<noteq> [] \<Longrightarrow> clock (last its) = Inr (last_time s')"
proof (induction its arbitrary: s outs s')
  case Nil
  then show ?case by simp
next
  case (Cons it its)
  obtain o1 s1 r1 where b: "body s it = (o1, s1, r1)"
    by (cases "body s it") auto
  obtain o2 s2 r2 where l: "loop s1 its = (o2, s2, r2)"
    by (cases "loop s1 its") auto
  from Cons.prems(1) b have r1: "r1 = None"
    by (cases r1) auto
  with Cons.prems(1) b l have eq: "s' = s2" "r2 = None"
    by auto
  show ?case
  proof (cases "its = []")
    case True
    with l eq have "s' = s1" by simp
    moreover from body_completed b r1
    obtain ct where "clock it = Inr ct" "s1 = s\<lparr>last_time := ct\<rparr>"
      by blast
    ultimately show ?thesis using True by simp
  next
    case False
    with Cons.IH [of s1 o2 s2] l eq show ?thesis by simp
  qed
qed

text \<open>
  With numbers that pass the validation and a start in which nothing raises, \<open>main\<close>
  is the two start messages, then the loop, then a handler if the loop raised.
\<close>

lemma main_started:
  assumes "parse_args c = Inr args" and "0 < ns_interval args" and "0 < ns_threshold args"
    and "loop \<lparr>interval = ns_interval args, threshold = ns_threshold args,
               log_file = ns_log_file args, last_time = t0\<rparr> its = (outs, s', r)"
  shows "main c (quiet_start t0) its =
           (case r of
              None \<Rightarrow>
                ([Log INFO ''System time monitor started.'',
                  Print (''System time monitor started.  Logging to '' @ ns_log_file args)] @ outs,
                 Running s')
            | Some e \<Rightarrow>
                ([Log INFO ''System time monitor started.'',
                  Print (''System time monitor started.  Logging to '' @ ns_log_file args)] @ outs
                 @ fst (handlers e), snd (handlers e)))"
  using assms validate_positive [of args]
  by (simp add: main_def try_block_def quiet_start_def split: option.splits prod.splits)

lemma main_running_loop:
  assumes "parse_args c = Inr args" and "0 < ns_interval args" and "0 < ns_threshold args"
    and "main c (quiet_start t0) its = (outs, Running s)"
  shows "\<exists>outs'. loop \<lparr>interval = ns_interval args, threshold = ns_threshold args,
               log_file = ns_log_file args, last_time = t0\<rparr> its = (outs', s, None)"
proof -
  let ?s = "\<lparr>interval = ns_interval args, threshold = ns_threshold args,
               log_file = ns_log_file args, last_time = t0\<rparr>"
  obtain o1 s1 r1 where l: "loop ?s its = (o1, s1, r1)"
    by (cases "loop ?s its") auto
  from main_started [OF assms(1-3) l] assms(4) have "r1 = None \<and> s1 = s"
    by (cases r1) (auto simp: handlers_def split: exn.splits)
  with l show ?thesis by simp
qed

text \<open>
  Which calls of a cycle can end it: the clock; the logger and \<open>print\<close>, when the
  alert is due; the wait, when nothing before it raised.
\<close>

lemma body_raises:
  "snd (snd (body s it)) =
     (case clock it of
        Inl e \<Rightarrow> Some e
      | Inr current_time \<Rightarrow>
          (case deviation_exceeds (float_sub (Fin current_time) (last_time s))
                  (interval s) (threshold s) of
             Inl e \<Rightarrow> Some e
           | Inr exceeds \<Rightarrow>
               if exceeds
               then (case warn_log it of
                       Some e \<Rightarrow> Some e
                     | None \<Rightarrow> (case warn_print it of Some e \<Rightarrow> Some e | None \<Rightarrow> sleep it))
               else sleep it))"
  by (simp add: body_def emit_alert_def Let_def split: sum.splits option.splits)

text \<open>
  An interval from \<open>2 ^ 1024\<close> on cannot be converted: the check raises and the cycle
  ends there, with nothing written and \<open>last_time\<close> as it was.
\<close>

lemma float_of_int_too_large:
  "float_of_int (2 ^ 1024) = Inl (Exception ''int too large to convert to float'')"
  by code_simp

lemma body_interval_too_large:
  "body \<lparr>interval = 2 ^ 1024, threshold = t, log_file = f, last_time = l\<rparr> (quiet r)
   = ([], \<lparr>interval = 2 ^ 1024, threshold = t, log_file = f, last_time = l\<rparr>,
      Some (Exception ''int too large to convert to float''))"
  using float_of_int_too_large
  by (simp add: body_def quiet_def Let_def deviation_exceeds_def del: power_numeral)

text \<open>Evaluations at the numbers of the examples below.\<close>

lemma float_sub_half: "float_sub (Fin (1 / 2)) 0 = Fin (1 / 2)"
  by code_simp

lemma deviation_exceeds_large:
  "deviation_exceeds (Fin (1 / 2)) 9007199254740995 9007199254740995 = Inr True"
  by code_simp

lemma float_sub_step_back: "float_sub (Fin (1 - 1 / 2 ^ 30)) 1 = Fin (- (1 / 2 ^ 30))"
  by code_simp

lemma deviation_exceeds_step_back:
  "deviation_exceeds (Fin (- (1 / 2 ^ 30))) 16777216 16777216 = Inr False"
  by code_simp

lemma py_int_2_53_plus_1: "py_int ''9007199254740993'' = Some 9007199254740993"
  by (simp add: py_int_def strip_def is_space_def is_digit_def digit_val_def)

lemma py_int_2_53: "py_int ''9007199254740992'' = Some 9007199254740992"
  by (simp add: py_int_def strip_def is_space_def is_digit_def digit_val_def)

lemma float_sub_same_reading: "float_sub (Fin 100) 100 = Fin 0"
  by (simp add: float_sub_def round_to_float_numeral)

lemma deviation_exceeds_2_53:
  "deviation_exceeds (Fin 0) 9007199254740993 9007199254740992 = Inr False"
  by code_simp

lemma default_args:
  "parse_args \<lparr>interval_arg = None, threshold_arg = None, log_file_arg = None\<rparr>
   = Inr \<lparr>ns_interval = 1, ns_threshold = 5, ns_log_file = ''system_time_monitor.log''\<rparr>"
  by (simp add: parse_args_def int_option_def)

lemma py_int_seven: "py_int ''7'' = Some 7"
  by code_simp

lemma py_int_two: "py_int ''2'' = Some 2"
  by code_simp

lemma args_7_2:
  "parse_args \<lparr>interval_arg = Some ''7'', threshold_arg = Some ''2'', log_file_arg = Some ''m.log''\<rparr>
   = Inr \<lparr>ns_interval = 7, ns_threshold = 2, ns_log_file = ''m.log''\<rparr>"
  by (simp add: parse_args_def int_option_def py_int_seven py_int_two)

lemma parse_args_numbers:
  "int_option 1 (interval_arg c) = Inr i \<Longrightarrow> int_option 5 (threshold_arg c) = Inr t \<Longrightarrow>
     parse_args c =
       Inr \<lparr>ns_interval = i, ns_threshold = t,
            ns_log_file = (case log_file_arg c of
                             None \<Rightarrow> ''system_time_monitor.log'' | Some f \<Rightarrow> f)\<rparr>"
  by (simp add: parse_args_def)

lemma parse_args_not_numeric:
  "(interval_arg c = Some a \<and> py_int a = None) \<or> (threshold_arg c = Some a \<and> py_int a = None)
     \<Longrightarrow> parse_args c = Inl 2"
  by (auto simp: parse_args_def int_option_def split: option.splits sum.splits)

lemma py_int_minus_three: "py_int ''-3'' = Some (- 3)"
  by code_simp

lemma py_int_abc: "py_int ''abc'' = None"
  by code_simp

subsection \<open>Configuration\<close>

text \<open>
  C2, as the code has it. The interval and the threshold, each as given on the command
  line or as its default, are converted by the parser. When both are positive
  integers they are the configuration the loop runs with, unchanged. When both are
  integers and one is not positive, \<open>main\<close> logs and prints the error of the first
  such value and returns 1, whatever the environment holds: no cycle is run. When the
  text of one of them is not an integer, the parser itself ends the process with
  status 2 before the validation is reached: \<open>main\<close> logs and prints nothing and no
  cycle is run.
\<close>

theorem C2_configuration_is_validated_before_the_loop:
  "(int_option 1 (interval_arg c) = Inr i \<and> int_option 5 (threshold_arg c) = Inr t
      \<and> 0 < i \<and> 0 < t
    \<longrightarrow> main c (quiet_start t0) [] =
          ([Log INFO ''System time monitor started.'',
            Print (''System time monitor started.  Logging to ''
                   @ (case log_file_arg c of
                        None \<Rightarrow> ''system_time_monitor.log'' | Some f \<Rightarrow> f))],
           Running \<lparr>interval = i, threshold = t,
                    log_file = (case log_file_arg c of
                                  None \<Rightarrow> ''system_time_monitor.log'' | Some f \<Rightarrow> f),
                    last_time = t0\<rparr>))
   \<and> (int_option 1 (interval_arg c) = Inr i \<and> int_option 5 (threshold_arg c) = Inr t
      \<and> (i \<le> 0 \<or> t \<le> 0)
    \<longrightarrow> main c st its =
          ([Log ERROR (''Error: '' @ invalid_msg (IntV (if i \<le> 0 then i else t))),
            Print (''Error: '' @ invalid_msg (IntV (if i \<le> 0 then i else t)))],
           Return 1))
   \<and> ((interval_arg c = Some a \<and> py_int a = None) \<or> (threshold_arg c = Some a \<and> py_int a = None)
    \<longrightarrow> main c st its = ([], SysExit 2))"
proof (intro conjI impI)
  let ?f = "case log_file_arg c of None \<Rightarrow> ''system_time_monitor.log'' | Some f \<Rightarrow> f"
  let ?args = "\<lparr>ns_interval = i, ns_threshold = t, ns_log_file = ?f\<rparr>"
  assume a: "int_option 1 (interval_arg c) = Inr i \<and> int_option 5 (threshold_arg c) = Inr t
      \<and> 0 < i \<and> 0 < t"
  then have p: "parse_args c = Inr ?args"
    using parse_args_numbers by blast
  have l: "loop \<lparr>interval = ns_interval ?args, threshold = ns_threshold ?args,
                  log_file = ns_log_file ?args, last_time = t0\<rparr> []
           = ([], \<lparr>interval = i, threshold = t, log_file = ?f, last_time = t0\<rparr>, None)"
    by simp
  from a main_started [OF p _ _ l]
  show "main c (quiet_start t0) [] =
          ([Log INFO ''System time monitor started.'',
            Print (''System time monitor started.  Logging to '' @ ?f)],
           Running \<lparr>interval = i, threshold = t, log_file = ?f, last_time = t0\<rparr>)"
    by simp
next
  let ?f = "case log_file_arg c of None \<Rightarrow> ''system_time_monitor.log'' | Some f \<Rightarrow> f"
  let ?args = "\<lparr>ns_interval = i, ns_threshold = t, ns_log_file = ?f\<rparr>"
  let ?m = "invalid_msg (IntV (if i \<le> 0 then i else t))"
  assume a: "int_option 1 (interval_arg c) = Inr i \<and> int_option 5 (threshold_arg c) = Inr t
      \<and> (i \<le> 0 \<or> t \<le> 0)"
  then have p: "parse_args c = Inr ?args"
    using parse_args_numbers by blast
  have "validate ?args = Inl ?m"
  proof (cases "i \<le> 0")
    case True
    then show ?thesis using validate_interval_rejected [of ?args] by simp
  next
    case False
    with a show ?thesis using validate_threshold_rejected [of ?args] by simp
  qed
  with p show "main c st its = ([Log ERROR (''Error: '' @ ?m), Print (''Error: '' @ ?m)], Return 1)"
    by (simp add: main_def)
next
  assume "(interval_arg c = Some a \<and> py_int a = None) \<or> (threshold_arg c = Some a \<and> py_int a = None)"
  then have "parse_args c = Inl 2"
    by (rule parse_args_not_numeric)
  then show "main c st its = ([], SysExit 2)"
    by (simp add: main_def)
qed

text \<open>
  The interval 7 and the threshold 2 are accepted; the interval \<open>-3\<close> is rejected by
  the validation; the threshold \<open>abc\<close> is rejected by the parser.
\<close>

theorem C2_configuration_is_validated_before_the_loop_witness:
  "main \<lparr>interval_arg = Some ''7'', threshold_arg = Some ''2'', log_file_arg = Some ''m.log''\<rparr>
     (quiet_start 100) []
   = ([Log INFO ''System time monitor started.'',
       Print ''System time monitor started.  Logging to m.log''],
      Running \<lparr>interval = 7, threshold = 2, log_file = ''m.log'', last_time = 100\<rparr>)
   \<and> main \<lparr>interval_arg = Some ''-3'', threshold_arg = None, log_file_arg = None\<rparr>
       (quiet_start 100) [quiet 200]
     = ([Log ERROR (''Error: '' @ invalid_msg (IntV (- 3))),
         Print (''Error: '' @ invalid_msg (IntV (- 3)))],
        Return 1)
   \<and> main \<lparr>interval_arg = None, threshold_arg = Some ''abc'', log_file_arg = None\<rparr>
       (quiet_start 100) [quiet 200]
     = ([], SysExit 2)"
proof -
  let ?c1 = "\<lparr>interval_arg = Some ''7'', threshold_arg = Some ''2'', log_file_arg = Some ''m.log''\<rparr>"
  let ?c2 = "\<lparr>interval_arg = Some ''-3'', threshold_arg = None, log_file_arg = None\<rparr>"
  let ?c3 = "\<lparr>interval_arg = None, threshold_arg = Some ''abc'', log_file_arg = None\<rparr>"
  have h1: "int_option 1 (interval_arg ?c1) = Inr 7 \<and> int_option 5 (threshold_arg ?c1) = Inr 2
            \<and> (0::int) < 7 \<and> (0::int) < 2"
    by (simp add: int_option_def py_int_seven py_int_two)
  have h2: "int_option 1 (interval_arg ?c2) = Inr (- 3) \<and> int_option 5 (threshold_arg ?c2) = Inr 5
            \<and> ((- 3::int) \<le> 0 \<or> (5::int) \<le> 0)"
    by (simp add: int_option_def py_int_minus_three)
  have h3: "(interval_arg ?c3 = Some ''abc'' \<and> py_int ''abc'' = None)
            \<or> (threshold_arg ?c3 = Some ''abc'' \<and> py_int ''abc'' = None)"
    by (simp add: py_int_abc)
  show ?thesis
    using C2_configuration_is_validated_before_the_loop
            [of ?c1 7 2 100 "quiet_start 100" "[quiet 200]" "''abc''"]
          C2_configuration_is_validated_before_the_loop
            [of ?c2 "- 3" 5 100 "quiet_start 100" "[quiet 200]" "''abc''"]
          C2_configuration_is_validated_before_the_loop
            [of ?c3 1 5 100 "quiet_start 100" "[quiet 200]" "''abc''"]
          h1 h2 h3
    by simp
qed

text \<open>
  C2 as stated asks for status 1 when a value is not numeric. The interval \<open>abc\<close>
  does not reach \<open>check_positive_int\<close>: the parser ends the process with status 2.
\<close>

theorem C2_non_numeric_interval_leaves_with_status_2:
  "main \<lparr>interval_arg = Some ''abc'', threshold_arg = None, log_file_arg = None\<rparr>
     (quiet_start 100) [quiet 101]
   = ([], SysExit 2)"
  by (simp add: main_def parse_args_def int_option_def py_int_abc)

subsection \<open>The deviation check\<close>

text \<open>
  C1, as the code has it. Take a cycle where the clock is read and neither the logger
  nor \<open>print\<close> raises, an interval and a threshold of at most \<open>2 ^ 53\<close>, and a finite
  measured elapsed time \<open>delta\<close>. The cycle writes the alert, once to the logger at
  level WARNING and once to the terminal, exactly when the deviation as the code
  computes it, the difference \<open>delta - interval\<close> rounded to the nearest double, is
  larger than the threshold in magnitude; otherwise it writes nothing. When the exact
  deviation is at most the threshold, and so when it equals the threshold, nothing is
  written. When the exact deviation is larger than the threshold and the difference is
  itself a double, the alert is written.
\<close>

theorem C1_alert_iff_computed_deviation_exceeds_threshold:
  assumes "clock it = Inr current_time" and "warn_log it = None" and "warn_print it = None"
    and "0 < interval s" and "interval s \<le> 2 ^ 53" and "threshold s \<le> 2 ^ 53"
    and "float_sub (Fin current_time) (last_time s) = Fin delta"
  shows "fst (body s it) =
           (if of_int (threshold s) < \<bar>to_double (delta - of_int (interval s))\<bar>
            then [Log WARNING (alert_msg (Fin delta) (interval s)),
                  Print (''Warning: '' @ alert_msg (Fin delta) (interval s))]
            else [])
         \<and> (\<bar>delta - of_int (interval s)\<bar> \<le> of_int (threshold s) \<longrightarrow> fst (body s it) = [])
         \<and> (of_int (threshold s) < \<bar>delta - of_int (interval s)\<bar>
              \<and> to_double (delta - of_int (interval s)) = delta - of_int (interval s)
            \<longrightarrow> fst (body s it) =
                  [Log WARNING (alert_msg (Fin delta) (interval s)),
                   Print (''Warning: '' @ alert_msg (Fin delta) (interval s))])"
proof -
  let ?alert = "[Log WARNING (alert_msg (Fin delta) (interval s)),
                 Print (''Warning: '' @ alert_msg (Fin delta) (interval s))]"
  from assms(4,5) have i: "\<bar>interval s\<bar> \<le> 2 ^ 53" by simp
  from deviation_exceeds_computed [OF i assms(6)] assms(1-3,7)
  have computed: "fst (body s it) =
      (if of_int (threshold s) < \<bar>to_double (delta - of_int (interval s))\<bar> then ?alert else [])"
    by (simp add: body_def emit_alert_def Let_def)
  have within: "fst (body s it) = []" if "\<bar>delta - of_int (interval s)\<bar> \<le> of_int (threshold s)"
    using computed to_double_bound [OF that assms(6)] by simp
  have beyond: "fst (body s it) = ?alert"
    if "of_int (threshold s) < \<bar>delta - of_int (interval s)\<bar>
        \<and> to_double (delta - of_int (interval s)) = delta - of_int (interval s)"
    using computed that by simp
  from computed within beyond show ?thesis by blast
qed

text \<open>
  Interval 1 and threshold 5. An elapsed time of 6 has deviation 5, equal to the
  threshold, and nothing is written; an elapsed time of 10 has deviation 9 and the
  alert is written.
\<close>

theorem C1_alert_iff_computed_deviation_exceeds_threshold_witness:
  "fst (body \<lparr>interval = 1, threshold = 5, log_file = ''m.log'', last_time = 100\<rparr> (quiet 106)) = []
   \<and> fst (body \<lparr>interval = 1, threshold = 5, log_file = ''m.log'', last_time = 100\<rparr> (quiet 110))
     = [Log WARNING (alert_msg (Fin 10) 1), Print (''Warning: '' @ alert_msg (Fin 10) 1)]"
proof -
  let ?st = "\<lparr>interval = 1, threshold = 5, log_file = ''m.log'', last_time = 100\<rparr>"
  have c: "clock (quiet 106) = Inr 106" "clock (quiet 110) = Inr 110"
    and l: "warn_log (quiet 106) = None" "warn_log (quiet 110) = None"
    and p: "warn_print (quiet 106) = None" "warn_print (quiet 110) = None"
    by (simp_all add: quiet_def)
  have i: "0 < interval ?st" "interval ?st \<le> 2 ^ 53" and t: "threshold ?st \<le> 2 ^ 53"
    by simp_all
  have d: "float_sub (Fin 106) (last_time ?st) = Fin 6"
    "float_sub (Fin 110) (last_time ?st) = Fin 10"
    by (simp_all add: float_sub_def round_to_float_numeral)
  have within: "\<bar>6 - of_int (interval ?st)\<bar> \<le> (of_int (threshold ?st) :: rat)"
    by simp
  have beyond: "(of_int (threshold ?st) :: rat) < \<bar>10 - of_int (interval ?st)\<bar>
                \<and> to_double (10 - of_int (interval ?st)) = 10 - of_int (interval ?st)"
    by (simp add: to_double_numeral)
  show ?thesis
    using C1_alert_iff_computed_deviation_exceeds_threshold
            [OF c(1) l(1) p(1) i t d(1)]
          C1_alert_iff_computed_deviation_exceeds_threshold
            [OF c(2) l(2) p(2) i t d(2)]
          within beyond
    by (simp add: to_double_numeral)
qed

text \<open>
  C1 as stated fails in both directions. With the interval and the threshold both
  \<open>2 ^ 53 + 3\<close> and an elapsed time of one half, the exact deviation is below the
  threshold, yet the interval is converted to \<open>2 ^ 53 + 4\<close> and the alert is written.
  With both \<open>2 ^ 24\<close> and the clock one step of \<open>2 ^ (- 30)\<close> back, the exact
  deviation is above the threshold, yet the difference is rounded to \<open>2 ^ 24\<close> and
  nothing is written.
\<close>

theorem C1_rounding_changes_the_decision:
  "(float_sub (Fin (1 / 2)) 0 = Fin (1 / 2)
    \<and> \<bar>1 / 2 - of_int 9007199254740995\<bar> \<le> (of_int 9007199254740995 :: rat)
    \<and> fst (body \<lparr>interval = 9007199254740995, threshold = 9007199254740995,
                   log_file = ''m.log'', last_time = 0\<rparr> (quiet (1 / 2))) \<noteq> [])
   \<and> (float_sub (Fin (1 - 1 / 2 ^ 30)) 1 = Fin (- (1 / 2 ^ 30))
    \<and> (of_int 16777216 :: rat) < \<bar>- (1 / 2 ^ 30) - of_int 16777216\<bar>
    \<and> fst (body \<lparr>interval = 16777216, threshold = 16777216,
                   log_file = ''m.log'', last_time = 1\<rparr> (quiet (1 - 1 / 2 ^ 30))) = [])"
proof -
  have "fst (body \<lparr>interval = 9007199254740995, threshold = 9007199254740995,
                   log_file = ''m.log'', last_time = 0\<rparr> (quiet (1 / 2))) \<noteq> []"
    by (simp add: body_def quiet_def emit_alert_def Let_def
          float_sub_half deviation_exceeds_large)
  moreover
  have "fst (body \<lparr>interval = 16777216, threshold = 16777216,
                   log_file = ''m.log'', last_time = 1\<rparr> (quiet (1 - 1 / 2 ^ 30))) = []"
    using float_sub_step_back deviation_exceeds_step_back
    by (simp add: body_def quiet_def Let_def)
  moreover
  have "\<bar>1 / 2 - of_int 9007199254740995\<bar> \<le> (of_int 9007199254740995 :: rat)"
    by simp
  moreover
  have "(of_int 16777216 :: rat) < \<bar>- (1 / 2 ^ 30) - of_int 16777216\<bar>"
    by simp
  ultimately show ?thesis
    using float_sub_half float_sub_step_back by blast
qed

text \<open>
  C3, as the code has it. The first cycle checks the deviation before any wait,
  against the reading taken before the loop. So when the interval is larger than the
  threshold and at most \<open>2 ^ 53\<close>, and the first reading of the loop equals the
  reading at the start (elapsed time 0), the first thing the program writes after its
  two start messages is the alert, for an elapsed time of 0. The wait of that cycle
  comes after and has no part in it.
\<close>

theorem C3_first_cycle_alerts_when_interval_exceeds_threshold:
  assumes "parse_args c = Inr args" and "0 < ns_threshold args"
    and "ns_threshold args < ns_interval args" and "ns_interval args \<le> 2 ^ 53"
    and "clock it = Inr t0" and "warn_log it = None" and "warn_print it = None"
  shows "take 4 (fst (main c (quiet_start t0) (it # its))) =
           [Log INFO ''System time monitor started.'',
            Print (''System time monitor started.  Logging to '' @ ns_log_file args),
            Log WARNING (alert_msg (Fin 0) (ns_interval args)),
            Print (''Warning: '' @ alert_msg (Fin 0) (ns_interval args))]"
proof -
  let ?st = "\<lparr>interval = ns_interval args, threshold = ns_threshold args,
              log_file = ns_log_file args, last_time = t0\<rparr>"
  let ?alert = "[Log WARNING (alert_msg (Fin 0) (ns_interval args)),
                 Print (''Warning: '' @ alert_msg (Fin 0) (ns_interval args))]"
  from assms(2-4) have i: "\<bar>ns_interval args\<bar> \<le> 2 ^ 53" and t: "ns_threshold args \<le> 2 ^ 53"
    and pos: "0 < ns_interval args"
    by simp_all
  have elapsed: "float_sub (Fin t0) (last_time ?st) = Fin 0"
    by (simp add: float_sub_def round_to_float_numeral)
  have "to_double (0 - of_int (ns_interval args)) = - of_int (ns_interval args)"
    using to_double_of_int [OF i] by (simp add: to_double_minus)
  with assms(3) deviation_exceeds_computed [OF i t, of 0]
  have "deviation_exceeds (Fin 0) (ns_interval args) (ns_threshold args) = Inr True"
    by simp
  with elapsed assms(5-7) have b: "body ?st it = (?alert, ?st\<lparr>last_time := t0\<rparr>, sleep it)"
    by (simp add: body_def emit_alert_def Let_def)
  obtain outs s' r where l: "loop ?st (it # its) = (outs, s', r)"
    by (cases "loop ?st (it # its)") auto
  with b obtain more_outs where o: "outs = ?alert @ more_outs"
    by (auto split: option.splits prod.splits)
  from main_started [OF assms(1) pos assms(2) l] o show ?thesis
    by (cases r) simp_all
qed

text \<open>Interval 7, threshold 2, and a first reading equal to the reading at the start.\<close>

theorem C3_first_cycle_alerts_when_interval_exceeds_threshold_witness:
  "take 4 (fst (main \<lparr>interval_arg = Some ''7'', threshold_arg = Some ''2'', log_file_arg = Some ''m.log''\<rparr>
             (quiet_start 100) [quiet 100, quiet 107])) =
     [Log INFO ''System time monitor started.'',
      Print ''System time monitor started.  Logging to m.log'',
      Log WARNING ''Significant system time change detected: 0.00 seconds since last check (expected ~7s)'',
      Print ''Warning: Significant system time change detected: 0.00 seconds since last check (expected ~7s)'']"
proof -
  let ?args = "\<lparr>ns_interval = 7, ns_threshold = 2, ns_log_file = ''m.log''\<rparr>"
  have t: "0 < ns_threshold ?args" and lt: "ns_threshold ?args < ns_interval ?args"
    and le: "ns_interval ?args \<le> 2 ^ 53"
    by simp_all
  have c: "clock (quiet 100) = Inr 100" and l: "warn_log (quiet 100) = None"
    and p: "warn_print (quiet 100) = None"
    by (simp_all add: quiet_def)
  show ?thesis
    using C3_first_cycle_alerts_when_interval_exceeds_threshold
            [OF args_7_2 t lt le c l p, of "[quiet 107]"]
    by (simp add: alert_msg_def format_float_2f_def str_int_seven format_2f_zero)
qed

text \<open>
  C3 as stated fails above \<open>2 ^ 53\<close>. With the interval \<open>2 ^ 53 + 1\<close> and the
  threshold \<open>2 ^ 53\<close> the interval is converted to \<open>2 ^ 53\<close>, the computed deviation
  at elapsed time 0 equals the threshold, and the first cycle writes nothing.
\<close>

theorem C3_no_alert_at_interval_2_53_plus_1:
  "main \<lparr>interval_arg = Some ''9007199254740993'', threshold_arg = Some ''9007199254740992'',
         log_file_arg = None\<rparr> (quiet_start 100) [quiet 100]
   = ([Log INFO ''System time monitor started.'',
       Print ''System time monitor started.  Logging to system_time_monitor.log''],
      Running \<lparr>interval = 9007199254740993, threshold = 9007199254740992,
               log_file = ''system_time_monitor.log'', last_time = 100\<rparr>)"
proof -
  let ?c = "\<lparr>interval_arg = Some ''9007199254740993'', threshold_arg = Some ''9007199254740992'',
             log_file_arg = None\<rparr>"
  let ?args = "\<lparr>ns_interval = 9007199254740993, ns_threshold = 9007199254740992,
                ns_log_file = ''system_time_monitor.log''\<rparr>"
  have p: "parse_args ?c = Inr ?args"
    by (simp add: parse_args_def int_option_def py_int_2_53_plus_1 py_int_2_53)
  have l: "loop \<lparr>interval = ns_interval ?args, threshold = ns_threshold ?args,
                  log_file = ns_log_file ?args, last_time = 100\<rparr> [quiet 100]
           = ([], \<lparr>interval = 9007199254740993, threshold = 9007199254740992,
                   log_file = ''system_time_monitor.log'', last_time = 100\<rparr>, None)"
    by (simp add: body_def quiet_def Let_def float_sub_same_reading deviation_exceeds_2_53)
  from main_started [OF p _ _ l] show ?thesis by simp
qed

text \<open>
  C6, as the code has it. With an interval and a threshold of at most \<open>2 ^ 53\<close>: when
  in every cycle the loop reaches the measured elapsed time differs from the interval
  by at most the threshold, the loop writes nothing, however many cycles it runs; in
  particular it writes no alert.
\<close>

theorem C6_steady_run_never_alerts:
  assumes "0 < interval s" and "interval s \<le> 2 ^ 53" and "threshold s \<le> 2 ^ 53"
    and "steady (interval s) (threshold s) (last_time s) its"
  shows "fst (loop s its) = []"
  using assms
proof (induction its arbitrary: s)
  case Nil
  then show ?case by simp
next
  case (Cons it its)
  show ?case
  proof (cases "clock it")
    case (Inl e)
    then show ?thesis by (simp add: body_def)
  next
    case (Inr ct)
    with Cons.prems(4) obtain delta
      where elapsed: "float_sub (Fin ct) (last_time s) = Fin delta"
        and dev: "\<bar>delta - of_int (interval s)\<bar> \<le> of_int (threshold s)"
        and later: "sleep it = None \<Longrightarrow> steady (interval s) (threshold s) ct its"
      by (auto split: pyfloat.splits option.splits)
    from Cons.prems(1,2) have i: "\<bar>interval s\<bar> \<le> 2 ^ 53" by simp
    from deviation_exceeds_within [OF i Cons.prems(3) dev] Inr elapsed
    have b: "body s it = ([], s\<lparr>last_time := ct\<rparr>, sleep it)"
      by (simp add: body_def Let_def)
    show ?thesis
    proof (cases "sleep it")
      case None
      with later have "steady (interval s) (threshold s) ct its" by simp
      with Cons.prems(1-3) have "fst (loop (s\<lparr>last_time := ct\<rparr>) its) = []"
        using Cons.IH [of "s\<lparr>last_time := ct\<rparr>"] by simp
      with b None show ?thesis by (simp split: prod.splits)
    next
      case (Some e)
      with b show ?thesis by simp
    qed
  qed
qed

text \<open>Three cycles at interval 1 and threshold 5 with elapsed times 1, 1 and 6.\<close>

theorem C6_steady_run_never_alerts_witness:
  "steady 1 5 100 [quiet 101, quiet 102, quiet 108]
   \<and> fst (loop \<lparr>interval = 1, threshold = 5, log_file = ''m.log'', last_time = 100\<rparr>
             [quiet 101, quiet 102, quiet 108]) = []"
proof -
  let ?st = "\<lparr>interval = 1, threshold = 5, log_file = ''m.log'', last_time = 100\<rparr>"
  have h: "steady 1 5 100 [quiet 101, quiet 102, quiet 108]"
    by (simp add: quiet_def float_sub_def round_to_float_numeral)
  have i: "0 < interval ?st" "interval ?st \<le> 2 ^ 53" and t: "threshold ?st \<le> 2 ^ 53"
    by simp_all
  show ?thesis
    using C6_steady_run_never_alerts [OF i t, of "[quiet 101, quiet 102, quiet 108]"] h
    by simp
qed

text \<open>
  C6 as stated fails above \<open>2 ^ 53\<close>. With the interval and the threshold both
  \<open>2 ^ 53 + 3\<close>, a cycle that measures one half second has a deviation below the
  threshold, and the loop writes the alert.
\<close>

theorem C6_steady_run_alerts_at_interval_2_53_plus_3:
  "steady 9007199254740995 9007199254740995 0 [quiet (1 / 2)]
   \<and> fst (loop \<lparr>interval = 9007199254740995, threshold = 9007199254740995,
                 log_file = ''m.log'', last_time = 0\<rparr> [quiet (1 / 2)]) \<noteq> []"
  by (simp add: body_def quiet_def emit_alert_def Let_def
        float_sub_half deviation_exceeds_large split: prod.splits)



text \<open>
  C9. With interval 1 and threshold 5, a cycle that measures 10 seconds writes the
  alert, and its message shows the elapsed time as \<open>10.00\<close> and the expected interval
  as \<open>1s\<close>.
\<close>

theorem C9_scenario_interval_1_threshold_5_delta_10:
  "body \<lparr>interval = 1, threshold = 5, log_file = f, last_time = l\<rparr> (quiet (l + 10))
   = ([Log WARNING ''Significant system time change detected: 10.00 seconds since last check (expected ~1s)'',
       Print ''Warning: Significant system time change detected: 10.00 seconds since last check (expected ~1s)''],
      \<lparr>interval = 1, threshold = 5, log_file = f, last_time = l + 10\<rparr>, None)"
  by (simp add: cycle_eval emit_alert_def alert_msg_def format_float_2f_def
        format_2f_ten str_int_one)

subsection \<open>What the loop changes\<close>

text \<open>
  C10. A cycle, and any number of cycles, leaves the interval, the threshold and the
  log file as they were: the state at the end is the state at the start with
  \<open>last_time\<close> replaced.
\<close>

theorem C10_loop_changes_only_last_time:
  "final_state (body s it) = s\<lparr>last_time := last_time (final_state (body s it))\<rparr>
   \<and> final_state (loop s its) = s\<lparr>last_time := last_time (final_state (loop s its))\<rparr>"
proof
  obtain o1 s1 r1 where b: "body s it = (o1, s1, r1)"
    by (cases "body s it") auto
  from body_frame [OF b] b
  show "final_state (body s it) = s\<lparr>last_time := last_time (final_state (body s it))\<rparr>"
    by (simp add: final_state_def)
next
  obtain o2 s2 r2 where l: "loop s its = (o2, s2, r2)"
    by (cases "loop s its") auto
  from loop_frame [OF l] l
  show "final_state (loop s its) = s\<lparr>last_time := last_time (final_state (loop s its))\<rparr>"
    by (simp add: final_state_def)
qed

text \<open>
  C7. Between two cycles \<open>last_time\<close> is the reading of the cycle just finished, and
  before the first cycle it is the reading taken at the start. Within a cycle it is
  written once, after the check and before the wait: when the clock was read, the
  cycle ends with \<open>last_time\<close> set to that reading whatever the wait does, unless the
  alert was due and writing it raised, in which case \<open>last_time\<close> is as it was.
\<close>

text \<open>
  C7. Between two cycles \<open>last_time\<close> is the reading of the cycle just finished, and
  before the first cycle it is the reading taken at the start. Within a cycle it is
  written once, after the check and before the wait: when the clock was read, the
  cycle ends with \<open>last_time\<close> set to that reading whatever the wait does, unless the
  check raised on converting the interval, or the alert was due and writing it raised,
  in which cases \<open>last_time\<close> is as it was.
\<close>

theorem C7_last_time_is_previous_reading:
  "(parse_args c = Inr args \<and> 0 < ns_interval args \<and> 0 < ns_threshold args
      \<and> main c (quiet_start t0) its = (outs, Running s)
    \<longrightarrow> (if its = [] then last_time s = t0 else clock (last its) = Inr (last_time s)))
   \<and> (clock it = Inr current_time
    \<longrightarrow> final_state (body s0 it) =
          (case deviation_exceeds (float_sub (Fin current_time) (last_time s0))
                  (interval s0) (threshold s0) of
             Inl e \<Rightarrow> s0
           | Inr exceeds \<Rightarrow>
               if exceeds \<and> (warn_log it \<noteq> None \<or> warn_print it \<noteq> None)
               then s0 else s0\<lparr>last_time := current_time\<rparr>))"
proof (intro conjI impI)
  assume a: "parse_args c = Inr args \<and> 0 < ns_interval args \<and> 0 < ns_threshold args
      \<and> main c (quiet_start t0) its = (outs, Running s)"
  then obtain outs' where l: "loop \<lparr>interval = ns_interval args, threshold = ns_threshold args,
               log_file = ns_log_file args, last_time = t0\<rparr> its = (outs', s, None)"
    using main_running_loop by blast
  show "if its = [] then last_time s = t0 else clock (last its) = Inr (last_time s)"
  proof (cases "its = []")
    case True
    with l show ?thesis by auto
  next
    case False
    with loop_completed_last_time [OF l] show ?thesis by simp
  qed
next
  assume "clock it = Inr current_time"
  then show "final_state (body s0 it) =
          (case deviation_exceeds (float_sub (Fin current_time) (last_time s0))
                  (interval s0) (threshold s0) of
             Inl e \<Rightarrow> s0
           | Inr exceeds \<Rightarrow>
               if exceeds \<and> (warn_log it \<noteq> None \<or> warn_print it \<noteq> None)
               then s0 else s0\<lparr>last_time := current_time\<rparr>)"
    by (auto simp: final_state_def body_def emit_alert_def Let_def
          split: option.splits sum.splits)
qed

text \<open>
  Two quiet cycles under the default configuration; then one cycle whose wait raises,
  and one cycle in which \<open>print\<close> raises while writing the alert.
\<close>

theorem C7_last_time_is_previous_reading_witness:
  "main \<lparr>interval_arg = None, threshold_arg = None, log_file_arg = None\<rparr> (quiet_start 100)
      [quiet 101, quiet 102]
   = ([Log INFO ''System time monitor started.'',
       Print ''System time monitor started.  Logging to system_time_monitor.log''],
      Running \<lparr>interval = 1, threshold = 5, log_file = ''system_time_monitor.log'', last_time = 102\<rparr>)
   \<and> clock (last [quiet 101, quiet 102]) = Inr 102
   \<and> final_state (body \<lparr>interval = 1, threshold = 5, log_file = ''m.log'', last_time = 100\<rparr>
        ((quiet 110)\<lparr>sleep := Some (Exception ''woken'')\<rparr>))
     = \<lparr>interval = 1, threshold = 5, log_file = ''m.log'', last_time = 110\<rparr>
   \<and> final_state (body \<lparr>interval = 1, threshold = 5, log_file = ''m.log'', last_time = 100\<rparr>
        ((quiet 110)\<lparr>warn_print := Some (Exception ''closed'')\<rparr>))
     = \<lparr>interval = 1, threshold = 5, log_file = ''m.log'', last_time = 100\<rparr>"
proof -
  let ?c = "\<lparr>interval_arg = None, threshold_arg = None, log_file_arg = None\<rparr>"
  let ?args = "\<lparr>ns_interval = 1, ns_threshold = 5, ns_log_file = ''system_time_monitor.log''\<rparr>"
  let ?s = "\<lparr>interval = 1, threshold = 5, log_file = ''system_time_monitor.log'', last_time = 102\<rparr>"
  let ?outs = "[Log INFO ''System time monitor started.'',
       Print ''System time monitor started.  Logging to system_time_monitor.log'']"
  let ?init = "\<lparr>interval = 1, threshold = 5, log_file = ''m.log'', last_time = 100\<rparr>"
  have l: "loop \<lparr>interval = ns_interval ?args, threshold = ns_threshold ?args,
                  log_file = ns_log_file ?args, last_time = 100\<rparr> [quiet 101, quiet 102]
           = ([], ?s, None)"
    by (simp add: cycle_eval)
  have m: "main ?c (quiet_start 100) [quiet 101, quiet 102] = (?outs, Running ?s)"
    using main_started [OF default_args _ _ l] by simp
  have c1: "clock ((quiet 110)\<lparr>sleep := Some (Exception ''woken'')\<rparr>) = Inr 110"
    and c2: "clock ((quiet 110)\<lparr>warn_print := Some (Exception ''closed'')\<rparr>) = Inr 110"
    by (simp_all add: quiet_def)
  have h: "parse_args ?c = Inr ?args \<and> 0 < ns_interval ?args \<and> 0 < ns_threshold ?args
      \<and> main ?c (quiet_start 100) [quiet 101, quiet 102] = (?outs, Running ?s)"
    using m default_args by simp
  show ?thesis
    using C7_last_time_is_previous_reading
            [of ?c ?args 100 "[quiet 101, quiet 102]" ?outs ?s
                "(quiet 110)\<lparr>sleep := Some (Exception ''woken'')\<rparr>" 110 ?init]
          C7_last_time_is_previous_reading
            [of ?c ?args 100 "[quiet 101, quiet 102]" ?outs ?s
                "(quiet 110)\<lparr>warn_print := Some (Exception ''closed'')\<rparr>" 110 ?init]
          h c1 c2
    by (simp add: quiet_def float_sub_def deviation_exceeds_def float_abs_def
          float_gt_int_def round_to_float_numeral float_of_int_numeral)
qed


subsection \<open>How the loop ends\<close>

text \<open>
  C4. When a \<open>KeyboardInterrupt\<close> is raised in the loop, in whichever cycle and at
  whichever call, \<open>main\<close> writes the stop message to the logger at level INFO and to
  the terminal, writes nothing at level ERROR, and returns 0. Cycles after the
  interrupt are not run: what the environment holds for them changes nothing.
\<close>

theorem C4_interrupt_stops_with_status_0:
  assumes "parse_args c = Inr args" and "0 < ns_interval args" and "0 < ns_threshold args"
    and "loop \<lparr>interval = ns_interval args, threshold = ns_threshold args,
               log_file = ns_log_file args, last_time = t0\<rparr> its
         = (outs, s', Some KeyboardInterrupt)"
  shows "main c (quiet_start t0) (its @ rest) =
           ([Log INFO ''System time monitor started.'',
             Print (''System time monitor started.  Logging to '' @ ns_log_file args)]
            @ outs
            @ [Log INFO ''System time monitor stopped by user.'',
               Print ''System time monitor stopped.''],
            Return 0)"
  using main_started [OF assms(1-3) loop_raised_append [OF assms(4)], of rest]
  by (simp add: handlers_def)

text \<open>
  The default configuration; the interrupt arrives during the wait of the second
  cycle, and a third cycle that would have alerted is never run.
\<close>

theorem C4_interrupt_stops_with_status_0_witness:
  "main \<lparr>interval_arg = None, threshold_arg = None, log_file_arg = None\<rparr> (quiet_start 100)
     ([quiet 101, (quiet 102)\<lparr>sleep := Some KeyboardInterrupt\<rparr>] @ [quiet 200])
   = ([Log INFO ''System time monitor started.'',
       Print ''System time monitor started.  Logging to system_time_monitor.log'',
       Log INFO ''System time monitor stopped by user.'',
       Print ''System time monitor stopped.''],
      Return 0)"
proof -
  let ?args = "\<lparr>ns_interval = 1, ns_threshold = 5, ns_log_file = ''system_time_monitor.log''\<rparr>"
  have i: "0 < ns_interval ?args" and t: "0 < ns_threshold ?args"
    by simp_all
  have l: "loop \<lparr>interval = ns_interval ?args, threshold = ns_threshold ?args,
                  log_file = ns_log_file ?args, last_time = 100\<rparr>
             [quiet 101, (quiet 102)\<lparr>sleep := Some KeyboardInterrupt\<rparr>]
           = ([], \<lparr>interval = 1, threshold = 5, log_file = ''system_time_monitor.log'',
                   last_time = 102\<rparr>, Some KeyboardInterrupt)"
    by (simp add: cycle_eval)
  show ?thesis
    using C4_interrupt_stops_with_status_0 [OF default_args i t l, of "[quiet 200]"]
    by simp
qed



end
